theory Spec2Isabelle
  imports Main "HOL-Library.Word" "HOL-Library.Sublist"
begin

section \<open>Kernel registry of onnxruntime: data model\<close>

text \<open>
  The development follows \<^verbatim>\<open>include/onnxruntime/core/framework/kernel_registry.h\<close>.
  Function bodies present in the header (\<^verbatim>\<open>OpIdFromNode\<close>,
  \<^verbatim>\<open>KernelTypeStrResolver::ResolveKernelTypeStr\<close>, \<^verbatim>\<open>KernelTypeStrResolver::Register\<close>,
  \<^verbatim>\<open>KernelRegistry::HasImplementationOf\<close>, \<^verbatim>\<open>KernelRegistry::IsEmpty\<close>,
  \<^verbatim>\<open>KernelRegistry::GetMapKey\<close>) are translated from the header. The member functions
  that the header only declares are modelled from the specification and are marked so.
\<close>

subsection \<open>Identifiers, argument positions, errors\<close>

text \<open>
  \<^verbatim>\<open>OpIdentifier = std::tuple<std::string, std::string, OperatorSetVersion>\<close>: the domain
  (component 0), the op type (component 1) and the since-version (component 2). The
  version is only compared and printed, so it is an unbounded integer here.
\<close>

type_synonym OpIdentifier = "string \<times> string \<times> int"

text \<open>
  Modelled from the spec: the enumeration \<^verbatim>\<open>ArgType\<close> is declared outside the header.
  Section 3 gives the kind of an argument position: input or output.
\<close>

datatype ArgType = kInput | kOutput

text \<open>\<^verbatim>\<open>ArgTypeAndIndex = std::pair<ArgType, size_t>\<close>\<close>

type_synonym ArgTypeAndIndex = "ArgType \<times> nat"

text \<open>
  \<^verbatim>\<open>HashValue\<close> is declared outside the header. Hashes are only stored, compared and
  looked up, so the registry is polymorphic in their type \<open>'h\<close>; the scenarios use
  unsigned 64-bit words.
\<close>

type_synonym HashValue = "64 word"

text \<open>Element types are named by their ONNX type strings.\<close>

type_synonym MLDataType = string

text \<open>
  Modelled from the spec: the failure conditions of the error taxonomy of Section 7, and
  the macro \<^verbatim>\<open>ORT_THROW\<close>, which \<^verbatim>\<open>ResolveKernelTypeStr\<close> uses and the header does not define.
  The macro raises a failure that reaches the caller; it is the value \<open>NotFound\<close>, carrying
  the message built from the arguments of the macro.
\<close>

datatype error =
    NotFound string
  | NoKernelForOp
  | NoMatchingKernel
  | AmbiguousKernel
  | DuplicateHash
  | HashNotFound

text \<open>
  Modelled from the spec: the class \<^verbatim>\<open>Status\<close> is declared outside the header. It is either
  OK or a failure of the taxonomy; \<^verbatim>\<open>Status::IsOK\<close> tests for the former.
\<close>

datatype Status = OK | Failed error

fun IsOK :: "Status \<Rightarrow> bool" where
  "IsOK OK = True"
| "IsOK (Failed e) = False"

subsection \<open>Nodes and kernel definitions (external collaborators)\<close>

text \<open>
  Modelled from the spec: the class \<^verbatim>\<open>Node\<close> is not part of the header. Section 6 of the
  specification gives its boundary: domain, op-type name, since-version, an execution
  provider assignment that may be unset, and the element type of every input and output
  position.
\<close>

record Node =
  Node_Domain :: string
  Node_OpType :: string
  Node_SinceVersion :: int
  Node_Provider :: "string option"
  Node_InputTypes :: "MLDataType list"
  Node_OutputTypes :: "MLDataType list"

text \<open>
  Modelled from the spec: the class \<^verbatim>\<open>KernelDef\<close> is not part of the header. Section 6 of
  the specification: op-name, domain, provider and the declared constraints, each a
  type-string with the element types it accepts.
\<close>

record KernelDef =
  KernelDef_OpName :: string
  KernelDef_Domain :: string
  KernelDef_Provider :: string
  KernelDef_TypeConstraints :: "(string \<times> MLDataType list) list"

text \<open>
  Modelled from the spec: \<^verbatim>\<open>KernelCreateInfo\<close> is not part of the header. It is the kernel
  entry: a definition together with an opaque factory, here a token.
\<close>

record KernelCreateInfo =
  kernel_def :: KernelDef
  kernel_create_func :: nat

text \<open>\<^verbatim>\<open>OpIdFromNode\<close> (header lines 16-18).\<close>

definition OpIdFromNode :: "Node \<Rightarrow> OpIdentifier" where
  "OpIdFromNode node = (Node_Domain node, Node_OpType node, Node_SinceVersion node)"

subsection \<open>Decimal rendering of the version in diagnostics\<close>

text \<open>
  \<^verbatim>\<open>ORT_THROW\<close> concatenates its arguments through a string stream; the version, an
  integer, is written in decimal. \<open>digit_char\<close> is only applied to numbers below ten.
\<close>

definition digit_char :: "nat \<Rightarrow> char" where
  "digit_char d = ''0123456789'' ! d"

fun string_of_nat :: "nat \<Rightarrow> string" where
  "string_of_nat n =
     (if n < 10 then [digit_char n]
      else string_of_nat (n div 10) @ [digit_char (n mod 10)])"

definition string_of_int :: "int \<Rightarrow> string" where
  "string_of_int i = (if i < 0 then CHR ''-'' # string_of_nat (nat (- i)) else string_of_nat (nat i))"

section \<open>KernelTypeStrResolver\<close>

text \<open>
  The class has one member, \<^verbatim>\<open>op_type_str_map_\<close>, a hash map from operator identifiers to
  hash maps from type strings to argument lists.
\<close>

record KernelTypeStrResolver =
  op_type_str_map :: "OpIdentifier \<rightharpoonup> (string \<rightharpoonup> ArgTypeAndIndex list)"

definition empty_resolver :: KernelTypeStrResolver where
  "empty_resolver = \<lparr>op_type_str_map = Map.empty\<rparr>"

text \<open>The text handed to \<^verbatim>\<open>ORT_THROW\<close> at header lines 30-31.\<close>

definition resolve_failure_message :: "OpIdentifier \<Rightarrow> string \<Rightarrow> string" where
  "resolve_failure_message op_id kernel_type_str =
     ''Failed to resolve type string '' @ [CHR 0x27] @ kernel_type_str @ [CHR 0x27] @ '' for op '' @
     fst (snd op_id) @ '':'' @ fst op_id @ ''('' @ string_of_int (snd (snd op_id)) @ '')''"

text \<open>
  \<^verbatim>\<open>ResolveKernelTypeStr\<close> (header lines 22-32). Both lookups must hit; every other path
  reaches the throw, which is the \<open>Inl\<close> branch.
\<close>

definition ResolveKernelTypeStr ::
  "KernelTypeStrResolver \<Rightarrow> OpIdentifier \<Rightarrow> string \<Rightarrow> error + ArgTypeAndIndex list" where
  "ResolveKernelTypeStr r op_id kernel_type_str =
     (case op_type_str_map r op_id of
        Some type_str_map \<Rightarrow>
          (case type_str_map kernel_type_str of
             Some args \<Rightarrow> Inr args
           | None \<Rightarrow> Inl (NotFound (resolve_failure_message op_id kernel_type_str)))
      | None \<Rightarrow> Inl (NotFound (resolve_failure_message op_id kernel_type_str)))"

text \<open>
  \<^verbatim>\<open>Register\<close> (header lines 34-36). \<^verbatim>\<open>op_type_str_map_[op_id]\<close> creates an empty inner map
  when the identifier is new; \<^verbatim>\<open>try_emplace\<close> stores the arguments only if the type string
  is absent and reports whether it stored them. The updated resolver is returned with
  the flag.
\<close>

definition KernelTypeStrResolver_Register ::
  "KernelTypeStrResolver \<Rightarrow> OpIdentifier \<Rightarrow> string \<Rightarrow> ArgTypeAndIndex list \<Rightarrow>
     bool \<times> KernelTypeStrResolver" where
  "KernelTypeStrResolver_Register r op_id type_str args =
     (let type_str_map = (case op_type_str_map r op_id of None \<Rightarrow> Map.empty | Some m \<Rightarrow> m)
      in case type_str_map type_str of
           None \<Rightarrow>
             (True, r\<lparr>op_type_str_map := (op_type_str_map r)(op_id \<mapsto> type_str_map(type_str \<mapsto> args))\<rparr>)
         | Some old \<Rightarrow>
             (False, r\<lparr>op_type_str_map := (op_type_str_map r)(op_id \<mapsto> type_str_map)\<rparr>))"

section \<open>KernelRegistry\<close>

text \<open>
  Modelled from the spec: the constant \<^verbatim>\<open>kOnnxDomainAlias\<close> is used by \<^verbatim>\<open>GetMapKey\<close> but
  defined outside the header. The comment at header line 133 and Scenario A of the
  specification give its value.
\<close>

definition kOnnxDomainAlias :: string where
  "kOnnxDomainAlias = ''ai.onnx''"

text \<open>\<^verbatim>\<open>GetMapKey\<close> on three strings (header lines 131-136).\<close>

definition GetMapKey :: "string \<Rightarrow> string \<Rightarrow> string \<Rightarrow> string" where
  "GetMapKey op_name domain provider =
     op_name @ '' '' @ (if domain = [] then kOnnxDomainAlias else domain) @ '' '' @ provider"

text \<open>\<^verbatim>\<open>GetMapKey\<close> on a kernel definition (header lines 138-140).\<close>

definition GetMapKey_KernelDef :: "KernelDef \<Rightarrow> string" where
  "GetMapKey_KernelDef kd =
     GetMapKey (KernelDef_OpName kd) (KernelDef_Domain kd) (KernelDef_Provider kd)"

text \<open>
  The two members of the class (header lines 141-146). \<^verbatim>\<open>kernel_creator_fn_map_\<close> is a
  multimap; it is kept as the list of its (key, entry) pairs in insertion order, which is
  the order a multimap keeps among entries of one key. Entries are only ever appended,
  so the position of a pair in the list is a stable reference to it: it stands for the
  iterators stored in \<^verbatim>\<open>kernel_def_hash_lookup_\<close> and for the \<^verbatim>\<open>const KernelCreateInfo*\<close>
  handed out by the lookups.
\<close>

record 'h KernelRegistry =
  kernel_creator_fn_map :: "(string \<times> KernelCreateInfo) list"
  kernel_def_hash_lookup :: "'h \<rightharpoonup> nat"

definition empty_registry :: "'h KernelRegistry" where
  "empty_registry = \<lparr>kernel_creator_fn_map = [], kernel_def_hash_lookup = Map.empty\<rparr>"

text \<open>\<^verbatim>\<open>IsEmpty\<close> (header line 99).\<close>

definition IsEmpty :: "'h KernelRegistry \<Rightarrow> bool" where
  "IsEmpty reg = (kernel_creator_fn_map reg = [])"

text \<open>The entry a reference points to.\<close>

definition entry_at :: "'h KernelRegistry \<Rightarrow> nat \<Rightarrow> KernelCreateInfo" where
  "entry_at reg i = snd (kernel_creator_fn_map reg ! i)"

subsection \<open>Registration\<close>

text \<open>
  Modelled from the spec: \<^verbatim>\<open>KernelRegistry::Register\<close> is declared at header lines 58-60
  and defined elsewhere. Section 4.2: the composite key is computed from the definition,
  the entry is appended under it and its content hash is put into the secondary index;
  if the hash is already there the registration fails with \<open>DuplicateHash\<close>. Invariant
  I3 says that a colliding entry is rejected, which is read as: nothing is stored, and
  the registry is returned as it was. The hash function of kernel definitions is not
  part of the header and is the parameter \<open>hashf\<close>.
\<close>

definition KernelRegistry_Register ::
  "(KernelDef \<Rightarrow> 'h) \<Rightarrow> 'h KernelRegistry \<Rightarrow> KernelCreateInfo \<Rightarrow> Status \<times> 'h KernelRegistry" where
  "KernelRegistry_Register hashf reg create_info =
     (let key = GetMapKey_KernelDef (kernel_def create_info);
          kernel_def_hash = hashf (kernel_def create_info)
      in case kernel_def_hash_lookup reg kernel_def_hash of
           Some it \<Rightarrow> (Failed DuplicateHash, reg)
         | None \<Rightarrow>
             (OK, \<lparr>kernel_creator_fn_map = kernel_creator_fn_map reg @ [(key, create_info)],
                   kernel_def_hash_lookup =
                     (kernel_def_hash_lookup reg)(kernel_def_hash \<mapsto> length (kernel_creator_fn_map reg))\<rparr>))"

text \<open>
  The registration phase: a sequence of registrations, failed ones included, applied to
  a registry. The reachable registries are those obtained from the empty one.
\<close>

fun register_all ::
  "(KernelDef \<Rightarrow> 'h) \<Rightarrow> 'h KernelRegistry \<Rightarrow> KernelCreateInfo list \<Rightarrow> 'h KernelRegistry" where
  "register_all hashf reg [] = reg"
| "register_all hashf reg (create_info # rest) =
     register_all hashf (snd (KernelRegistry_Register hashf reg create_info)) rest"

definition registry_of :: "(KernelDef \<Rightarrow> 'h) \<Rightarrow> KernelCreateInfo list \<Rightarrow> 'h KernelRegistry" where
  "registry_of hashf infos = register_all hashf empty_registry infos"

subsection \<open>Verification of a candidate\<close>

text \<open>
  Modelled from the spec: the element type of a node at an argument position (Section 6,
  the boundary of \<^verbatim>\<open>Node\<close>). A position beyond the node's arguments has no type.
\<close>

definition node_type_at :: "Node \<Rightarrow> ArgTypeAndIndex \<Rightarrow> MLDataType option" where
  "node_type_at node pos =
     (case fst pos of
        kInput \<Rightarrow>
          (if snd pos < length (Node_InputTypes node) then Some (Node_InputTypes node ! snd pos) else None)
      | kOutput \<Rightarrow>
          (if snd pos < length (Node_OutputTypes node) then Some (Node_OutputTypes node ! snd pos) else None))"

text \<open>
  Modelled from the spec: step 3b of Section 4.3 for one declared constraint. The type
  string is resolved for the node's operator identifier; a type string that does not
  resolve, or resolves to no position, rejects the candidate; otherwise the type at every
  governed position must be one of the accepted types.
\<close>

definition constraint_holds ::
  "Node \<Rightarrow> KernelTypeStrResolver \<Rightarrow> string \<times> MLDataType list \<Rightarrow> bool" where
  "constraint_holds node kernel_type_str_resolver c =
     (case ResolveKernelTypeStr kernel_type_str_resolver (OpIdFromNode node) (fst c) of
        Inl e \<Rightarrow> False
      | Inr positions \<Rightarrow>
          positions \<noteq> [] \<and>
          list_all (\<lambda>pos. case node_type_at node pos of
                            None \<Rightarrow> False
                          | Some t \<Rightarrow> t \<in> set (snd c)) positions)"

text \<open>
  Modelled from the spec: \<^verbatim>\<open>KernelRegistry::VerifyKernelDef\<close> is declared at header lines
  126-129 and defined elsewhere. Step 3 of Section 4.3 and the comment at header lines
  123-125: if the node has a provider, the definition's provider must equal it and
  \<open>exec_provider\<close> is ignored; otherwise the definition's provider must equal
  \<open>exec_provider\<close>. Then every declared constraint must hold. The target provider, which
  the specification's check reads from the enclosing search, is an explicit argument; the
  diagnostic text written to \<^verbatim>\<open>error_str\<close> is not modelled.
\<close>

definition VerifyKernelDef ::
  "Node \<Rightarrow> string \<Rightarrow> KernelDef \<Rightarrow> KernelTypeStrResolver \<Rightarrow> bool" where
  "VerifyKernelDef node exec_provider kd kernel_type_str_resolver =
     ((case Node_Provider node of
         Some node_provider \<Rightarrow> KernelDef_Provider kd = node_provider
       | None \<Rightarrow> KernelDef_Provider kd = exec_provider) \<and>
      list_all (constraint_holds node kernel_type_str_resolver) (KernelDef_TypeConstraints kd))"

subsection \<open>The matcher\<close>

text \<open>
  Modelled from the spec: steps 1-2 of Section 4.3, the references of the entries stored
  under a composite key, in registration order.
\<close>

definition candidates :: "'h KernelRegistry \<Rightarrow> string \<Rightarrow> nat list" where
  "candidates reg key =
     filter (\<lambda>i. fst (kernel_creator_fn_map reg ! i) = key) [0..<length (kernel_creator_fn_map reg)]"

text \<open>Modelled from the spec: step 3 of Section 4.3, the candidates that pass verification.\<close>

definition survivors ::
  "'h KernelRegistry \<Rightarrow> Node \<Rightarrow> string \<Rightarrow> KernelTypeStrResolver \<Rightarrow> nat list" where
  "survivors reg node exec_provider kernel_type_str_resolver =
     filter (\<lambda>i. VerifyKernelDef node exec_provider (kernel_def (entry_at reg i)) kernel_type_str_resolver)
       (candidates reg (GetMapKey (Node_OpType node) (Node_Domain node) exec_provider))"

text \<open>
  Modelled from the spec: \<^verbatim>\<open>KernelRegistry::TryFindKernel\<close> with a type-string resolver is
  declared at header lines 62-64 and defined elsewhere. Section 4.3: no candidate under
  the key fails with \<open>NoKernelForOp\<close>; exactly one survivor is returned; no survivor
  fails with \<open>NoMatchingKernel\<close>; several fail with \<open>AmbiguousKernel\<close>. The result
  \<open>Inr i\<close> is an OK status with \<^verbatim>\<open>*out\<close> pointing to entry \<open>i\<close>.
\<close>

definition TryFindKernel ::
  "'h KernelRegistry \<Rightarrow> Node \<Rightarrow> string \<Rightarrow> KernelTypeStrResolver \<Rightarrow> error + nat" where
  "TryFindKernel reg node exec_provider kernel_type_str_resolver =
     (if candidates reg (GetMapKey (Node_OpType node) (Node_Domain node) exec_provider) = []
      then Inl NoKernelForOp
      else case survivors reg node exec_provider kernel_type_str_resolver of
             [] \<Rightarrow> Inl NoMatchingKernel
           | [i] \<Rightarrow> Inr i
           | i # j # rest \<Rightarrow> Inl AmbiguousKernel)"

text \<open>
  Modelled from the spec: \<^verbatim>\<open>KernelRegistry::TryFindKernelByHash\<close> is declared at header lines
  96-97 and defined elsewhere. Section 4.4: a direct lookup in the secondary index. The
  header's result is a flag and an out-pointer, here an optional reference.
\<close>

definition TryFindKernelByHash :: "'h KernelRegistry \<Rightarrow> 'h \<Rightarrow> nat option" where
  "TryFindKernelByHash reg kernel_def_hash = kernel_def_hash_lookup reg kernel_def_hash"

text \<open>
  Modelled from the spec: \<open>findKernelByHash\<close> of Section 4.4, the same lookup with the
  miss reported as \<open>HashNotFound\<close>.
\<close>

definition findKernelByHash :: "'h KernelRegistry \<Rightarrow> 'h \<Rightarrow> error + nat" where
  "findKernelByHash reg kernel_def_hash =
     (case TryFindKernelByHash reg kernel_def_hash of
        None \<Rightarrow> Inl HashNotFound
      | Some i \<Rightarrow> Inr i)"

subsection \<open>HasImplementationOf\<close>

text \<open>
  \<^verbatim>\<open>HasImplementationOf\<close> (header lines 68-73). It calls the overload of
  \<^verbatim>\<open>TryFindKernel\<close> without a resolver (header lines 86-87), which is declared only; that
  overload is the parameter \<open>TryFindKernel3\<close>, returning the status and the value left in
  the out-pointer. The registry is received by const reference and the overload is a
  const member, so no registry is returned.
\<close>

definition HasImplementationOf ::
  "('h KernelRegistry \<Rightarrow> Node \<Rightarrow> string \<Rightarrow> Status \<times> nat option) \<Rightarrow>
     'h KernelRegistry \<Rightarrow> Node \<Rightarrow> string \<Rightarrow> bool" where
  "HasImplementationOf TryFindKernel3 r node exec_provider =
     (let (st, info) = TryFindKernel3 r node exec_provider in IsOK st)"

text \<open>The header's view of a matcher result: the status and the out-pointer.\<close>

definition status_and_out :: "error + nat \<Rightarrow> Status \<times> nat option" where
  "status_and_out res = (case res of Inl e \<Rightarrow> (Failed e, None) | Inr i \<Rightarrow> (OK, Some i))"

subsection \<open>The invariant of the secondary index\<close>

text \<open>
  Every reference in the hash index points into the table, to an entry whose definition
  has that hash, and every entry of the table is indexed under its hash.
\<close>

definition index_consistent :: "(KernelDef \<Rightarrow> 'h) \<Rightarrow> 'h KernelRegistry \<Rightarrow> bool" where
  "index_consistent hashf reg =
     ((\<forall>h i. kernel_def_hash_lookup reg h = Some i \<longrightarrow>
          i < length (kernel_creator_fn_map reg) \<and> hashf (kernel_def (entry_at reg i)) = h) \<and>
      (\<forall>i < length (kernel_creator_fn_map reg).
          kernel_def_hash_lookup reg (hashf (kernel_def (entry_at reg i))) = Some i))"

section \<open>Scenario data\<close>

text \<open>
  The scenarios of Section 8 of the specification as concrete data. The statements below
  hold for every hash function; \<open>example_hash\<close> is one to run the scenarios with.
\<close>

definition example_hash :: "KernelDef \<Rightarrow> HashValue" where
  "example_hash kd =
     of_nat (length (KernelDef_OpName kd) + 7 * length (KernelDef_Provider kd) +
             31 * sum_list (map (\<lambda>c. length (fst c) + sum_list (map length (snd c)))
                                (KernelDef_TypeConstraints kd)))"

definition relu_cpu :: KernelCreateInfo where
  "relu_cpu = \<lparr>kernel_def = \<lparr>KernelDef_OpName = ''Relu'', KernelDef_Domain = [],
       KernelDef_Provider = ''CPU'', KernelDef_TypeConstraints = []\<rparr>, kernel_create_func = 0\<rparr>"

definition clip_cpu_float32 :: KernelCreateInfo where
  "clip_cpu_float32 = \<lparr>kernel_def = \<lparr>KernelDef_OpName = ''Clip'', KernelDef_Domain = [],
       KernelDef_Provider = ''CPU'', KernelDef_TypeConstraints = [(''T'', [''float32''])]\<rparr>,
     kernel_create_func = 1\<rparr>"

definition clip_cpu_int32 :: KernelCreateInfo where
  "clip_cpu_int32 = \<lparr>kernel_def = \<lparr>KernelDef_OpName = ''Clip'', KernelDef_Domain = [],
       KernelDef_Provider = ''CPU'', KernelDef_TypeConstraints = [(''T'', [''int32''])]\<rparr>,
     kernel_create_func = 2\<rparr>"

text \<open>A second kernel that accepts \<open>float32\<close>, which makes that type ambiguous.\<close>

definition clip_cpu_floats :: KernelCreateInfo where
  "clip_cpu_floats = \<lparr>kernel_def = \<lparr>KernelDef_OpName = ''Clip'', KernelDef_Domain = [],
       KernelDef_Provider = ''CPU'', KernelDef_TypeConstraints = [(''T'', [''float32'', ''float64''])]\<rparr>,
     kernel_create_func = 3\<rparr>"

definition example_registry :: "HashValue KernelRegistry" where
  "example_registry =
     registry_of example_hash [relu_cpu, clip_cpu_float32, clip_cpu_int32, clip_cpu_floats]"

definition clip_resolver :: KernelTypeStrResolver where
  "clip_resolver =
     snd (KernelTypeStrResolver_Register empty_resolver (''ai.onnx'', ''Clip'', 11) ''T''
            [(kInput, 0), (kOutput, 0)])"

definition clip_node :: "MLDataType \<Rightarrow> Node" where
  "clip_node t = \<lparr>Node_Domain = ''ai.onnx'', Node_OpType = ''Clip'', Node_SinceVersion = 11,
      Node_Provider = None, Node_InputTypes = [t], Node_OutputTypes = [t]\<rparr>"

definition relu_node :: Node where
  "relu_node = \<lparr>Node_Domain = ''ai.onnx'', Node_OpType = ''Relu'', Node_SinceVersion = 14,
      Node_Provider = Some ''CPU'', Node_InputTypes = [''float32''], Node_OutputTypes = [''float32'']\<rparr>"

lemmas ex_defs = relu_cpu_def clip_cpu_float32_def clip_cpu_int32_def clip_cpu_floats_def
  example_hash_def

section \<open>Properties of the type-string resolver\<close>

lemma Register_leaves_bound:
  assumes "op_type_str_map r op_id = Some m" and "m type_str = Some args"
  shows "KernelTypeStrResolver_Register r op_id type_str args' = (False, r)"
proof -
  have "(op_type_str_map r)(op_id \<mapsto> m) = op_type_str_map r"
    using assms(1) by (rule map_upd_triv)
  then show ?thesis
    using assms by (simp add: KernelTypeStrResolver_Register_def)
qed

lemma Register_binds:
  "\<exists>m. op_type_str_map (snd (KernelTypeStrResolver_Register r op_id type_str args)) op_id = Some m
       \<and> m type_str \<noteq> None"
  by (auto simp: KernelTypeStrResolver_Register_def Let_def split: option.splits)

lemma Register_keeps_binding:
  assumes "op_type_str_map r op_id = Some m" and "m type_str = Some args"
  shows "\<exists>m'. op_type_str_map (snd (KernelTypeStrResolver_Register r op_id' type_str' args')) op_id = Some m'
       \<and> m' type_str = Some args"
  using assms
  by (auto simp: KernelTypeStrResolver_Register_def Let_def split: option.splits)

lemma Resolve_Inr_iff:
  "ResolveKernelTypeStr r op_id type_str = Inr args \<longleftrightarrow>
     (\<exists>m. op_type_str_map r op_id = Some m \<and> m type_str = Some args)"
  by (auto simp: ResolveKernelTypeStr_def split: option.splits)

lemma Register_new_binding:
  assumes "fst (KernelTypeStrResolver_Register r op_id type_str args)"
  shows "ResolveKernelTypeStr (snd (KernelTypeStrResolver_Register r op_id type_str args)) op_id type_str
           = Inr args"
  using assms
  by (auto simp: KernelTypeStrResolver_Register_def ResolveKernelTypeStr_def Let_def
           split: option.splits)

text \<open>
  C6. Registering the same (identifier, type string, positions) triple a second time
  returns false and leaves the resolver exactly as the first registration left it; this
  holds whatever the resolver was before the first call and whatever that call returned.
\<close>

theorem Register_idempotent:
  "KernelTypeStrResolver_Register
       (snd (KernelTypeStrResolver_Register r op_id type_str args)) op_id type_str args
     = (False, snd (KernelTypeStrResolver_Register r op_id type_str args))"
proof -
  obtain m where
    "op_type_str_map (snd (KernelTypeStrResolver_Register r op_id type_str args)) op_id = Some m"
    and "m type_str \<noteq> None"
    using Register_binds by blast
  then show ?thesis
    using Register_leaves_bound by fastforce
qed

text \<open>
  C7. If a type string is bound for an identifier, so that resolution returns the
  positions \<open>args\<close>, then a further \<open>Register\<close> call for the same identifier and type
  string returns false and leaves the resolver unchanged, also when it supplies other
  positions; and after any \<open>Register\<close> call whatsoever, resolution of the pair still
  returns \<open>args\<close>.
\<close>

theorem Register_never_mutates_binding:
  assumes "ResolveKernelTypeStr r op_id type_str = Inr args"
  shows "KernelTypeStrResolver_Register r op_id type_str args' = (False, r) \<and>
         ResolveKernelTypeStr (snd (KernelTypeStrResolver_Register r op_id type_str args')) op_id type_str
           = Inr args \<and>
         (\<forall>op_id' type_str' args''.
            ResolveKernelTypeStr (snd (KernelTypeStrResolver_Register r op_id' type_str' args'')) op_id type_str
              = Inr args)"
proof -
  obtain m where m: "op_type_str_map r op_id = Some m" "m type_str = Some args"
    using assms Resolve_Inr_iff by blast
  have same: "KernelTypeStrResolver_Register r op_id type_str args' = (False, r)"
    using m by (rule Register_leaves_bound)
  have any: "ResolveKernelTypeStr (snd (KernelTypeStrResolver_Register r op_id' type_str' args'')) op_id type_str
               = Inr args" for op_id' type_str' args''
    using Register_keeps_binding [OF m] Resolve_Inr_iff by blast
  show ?thesis
    using same any assms by simp
qed

theorem Register_never_mutates_binding_witness:
  "ResolveKernelTypeStr
       (snd (KernelTypeStrResolver_Register empty_resolver (''ai.onnx'', ''Clip'', 11) ''T'' [(kInput, 0)]))
       (''ai.onnx'', ''Clip'', 11) ''T'' = Inr [(kInput, 0)] \<and>
   fst (KernelTypeStrResolver_Register
       (snd (KernelTypeStrResolver_Register empty_resolver (''ai.onnx'', ''Clip'', 11) ''T'' [(kInput, 0)]))
       (''ai.onnx'', ''Clip'', 11) ''T'' [(kOutput, 3)]) = False \<and>
   ResolveKernelTypeStr
       (snd (KernelTypeStrResolver_Register
          (snd (KernelTypeStrResolver_Register empty_resolver (''ai.onnx'', ''Clip'', 11) ''T'' [(kInput, 0)]))
          (''ai.onnx'', ''Clip'', 11) ''T'' [(kOutput, 3)]))
       (''ai.onnx'', ''Clip'', 11) ''T'' = Inr [(kInput, 0)]"
proof -
  have h: "ResolveKernelTypeStr
       (snd (KernelTypeStrResolver_Register empty_resolver (''ai.onnx'', ''Clip'', 11) ''T'' [(kInput, 0)]))
       (''ai.onnx'', ''Clip'', 11) ''T'' = Inr [(kInput, 0)]"
    by (simp add: KernelTypeStrResolver_Register_def ResolveKernelTypeStr_def empty_resolver_def)
  show ?thesis
    using h Register_never_mutates_binding [OF h, of "[(kOutput, 3)]"] by simp
qed

text \<open>
  C9. If the identifier is not in the resolver, or it is and the type string is not bound
  for it, resolution fails with \<open>NotFound\<close>, a value returned to the caller, and the
  message contains the op type, the domain and the version in decimal. If both are
  present it returns the bound positions.
\<close>

theorem ResolveKernelTypeStr_NotFound_or_positions:
  "((op_type_str_map r op_id = None \<or>
      (\<exists>m. op_type_str_map r op_id = Some m \<and> m kernel_type_str = None)) \<longrightarrow>
      ResolveKernelTypeStr r op_id kernel_type_str
        = Inl (NotFound (resolve_failure_message op_id kernel_type_str)) \<and>
      sublist (fst (snd op_id)) (resolve_failure_message op_id kernel_type_str) \<and>
      sublist (fst op_id) (resolve_failure_message op_id kernel_type_str) \<and>
      sublist (string_of_int (snd (snd op_id))) (resolve_failure_message op_id kernel_type_str)) \<and>
   (\<forall>m args. op_type_str_map r op_id = Some m \<and> m kernel_type_str = Some args \<longrightarrow>
      ResolveKernelTypeStr r op_id kernel_type_str = Inr args)"
proof -
  have name: "sublist (fst (snd op_id)) (resolve_failure_message op_id kernel_type_str)"
    unfolding resolve_failure_message_def sublist_def
    by (rule exI [of _ "''Failed to resolve type string '' @ [CHR 0x27] @ kernel_type_str @ [CHR 0x27] @ '' for op ''"],
        rule exI [of _ "'':'' @ fst op_id @ ''('' @ string_of_int (snd (snd op_id)) @ '')''"]) simp
  have dom: "sublist (fst op_id) (resolve_failure_message op_id kernel_type_str)"
    unfolding resolve_failure_message_def sublist_def
    by (rule exI [of _ "''Failed to resolve type string '' @ [CHR 0x27] @ kernel_type_str @ [CHR 0x27] @ '' for op '' @
                         fst (snd op_id) @ '':''"],
        rule exI [of _ "''('' @ string_of_int (snd (snd op_id)) @ '')''"]) simp
  have ver: "sublist (string_of_int (snd (snd op_id))) (resolve_failure_message op_id kernel_type_str)"
    unfolding resolve_failure_message_def sublist_def
    by (rule exI [of _ "''Failed to resolve type string '' @ [CHR 0x27] @ kernel_type_str @ [CHR 0x27] @ '' for op '' @
                         fst (snd op_id) @ '':'' @ fst op_id @ ''(''"],
        rule exI [of _ "'')''"]) simp
  have miss: "ResolveKernelTypeStr r op_id kernel_type_str
                = Inl (NotFound (resolve_failure_message op_id kernel_type_str))"
    if "op_type_str_map r op_id = None \<or>
        (\<exists>m. op_type_str_map r op_id = Some m \<and> m kernel_type_str = None)"
    using that by (auto simp: ResolveKernelTypeStr_def)
  have hit: "ResolveKernelTypeStr r op_id kernel_type_str = Inr args"
    if "op_type_str_map r op_id = Some m \<and> m kernel_type_str = Some args" for m args
    using that by (simp add: ResolveKernelTypeStr_def)
  show ?thesis
    using name dom ver miss hit by blast
qed

theorem ResolveKernelTypeStr_NotFound_or_positions_witness:
  "(op_type_str_map empty_resolver (''ai.onnx'', ''Clip'', 11) = None \<or>
      (\<exists>m. op_type_str_map empty_resolver (''ai.onnx'', ''Clip'', 11) = Some m \<and> m ''T'' = None)) \<and>
   ResolveKernelTypeStr empty_resolver (''ai.onnx'', ''Clip'', 11) ''T''
     = Inl (NotFound (''Failed to resolve type string '' @ [CHR 0x27] @ ''T'' @ [CHR 0x27] @
                      '' for op Clip:ai.onnx(11)'')) \<and>
   (op_type_str_map clip_resolver (''ai.onnx'', ''Clip'', 11) = None \<or>
      (\<exists>m. op_type_str_map clip_resolver (''ai.onnx'', ''Clip'', 11) = Some m \<and> m ''U'' = None)) \<and>
   ResolveKernelTypeStr clip_resolver (''ai.onnx'', ''Clip'', 11) ''U''
     = Inl (NotFound (''Failed to resolve type string '' @ [CHR 0x27] @ ''U'' @ [CHR 0x27] @
                      '' for op Clip:ai.onnx(11)'')) \<and>
   sublist ''Clip'' (resolve_failure_message (''ai.onnx'', ''Clip'', 11) ''U'') \<and>
   sublist ''ai.onnx'' (resolve_failure_message (''ai.onnx'', ''Clip'', 11) ''U'') \<and>
   sublist ''11'' (resolve_failure_message (''ai.onnx'', ''Clip'', 11) ''U'') \<and>
   (op_type_str_map clip_resolver (''ai.onnx'', ''Clip'', 11) = Some [''T'' \<mapsto> [(kInput, 0), (kOutput, 0)]] \<and>
    [''T'' \<mapsto> [(kInput, 0), (kOutput, 0)]] ''T'' = Some [(kInput, 0), (kOutput, 0)]) \<and>
   ResolveKernelTypeStr clip_resolver (''ai.onnx'', ''Clip'', 11) ''T'' = Inr [(kInput, 0), (kOutput, 0)]"
proof -
  have v: "string_of_int 11 = ''11''"
    by (simp add: string_of_int_def digit_char_def)
  have msg: "resolve_failure_message (''ai.onnx'', ''Clip'', 11) ts
               = ''Failed to resolve type string '' @ [CHR 0x27] @ ts @ [CHR 0x27] @
                 '' for op Clip:ai.onnx(11)''" for ts
    by (simp add: resolve_failure_message_def v)
  have h1: "op_type_str_map empty_resolver (''ai.onnx'', ''Clip'', 11) = None \<or>
      (\<exists>m. op_type_str_map empty_resolver (''ai.onnx'', ''Clip'', 11) = Some m \<and> m ''T'' = None)"
    by (simp add: empty_resolver_def)
  have h2: "op_type_str_map clip_resolver (''ai.onnx'', ''Clip'', 11) = None \<or>
      (\<exists>m. op_type_str_map clip_resolver (''ai.onnx'', ''Clip'', 11) = Some m \<and> m ''U'' = None)"
    by (simp add: clip_resolver_def KernelTypeStrResolver_Register_def empty_resolver_def)
  have h3: "op_type_str_map clip_resolver (''ai.onnx'', ''Clip'', 11) = Some [''T'' \<mapsto> [(kInput, 0), (kOutput, 0)]] \<and>
    [''T'' \<mapsto> [(kInput, 0), (kOutput, 0)]] ''T'' = Some [(kInput, 0), (kOutput, 0)]"
    by (simp add: clip_resolver_def KernelTypeStrResolver_Register_def empty_resolver_def)
  note r1 = ResolveKernelTypeStr_NotFound_or_positions
      [of empty_resolver "(''ai.onnx'', ''Clip'', 11)" "''T''", THEN conjunct1, rule_format, OF h1]
  note r2 = ResolveKernelTypeStr_NotFound_or_positions
      [of clip_resolver "(''ai.onnx'', ''Clip'', 11)" "''U''", THEN conjunct1, rule_format, OF h2]
  note r3 = ResolveKernelTypeStr_NotFound_or_positions
      [of clip_resolver "(''ai.onnx'', ''Clip'', 11)" "''T''", THEN conjunct2, rule_format, OF h3]
  show ?thesis
    using h1 r1 h2 r2 h3 r3 by (simp add: v msg)
qed

section \<open>Properties of the registry\<close>

subsection \<open>Registration keeps the hash index consistent\<close>

lemma Register_fail:
  "kernel_def_hash_lookup reg (hashf (kernel_def info)) = Some i \<Longrightarrow>
   KernelRegistry_Register hashf reg info = (Failed DuplicateHash, reg)"
  by (simp add: KernelRegistry_Register_def)

lemma Register_ok:
  "kernel_def_hash_lookup reg (hashf (kernel_def info)) = None \<Longrightarrow>
   KernelRegistry_Register hashf reg info =
     (OK, \<lparr>kernel_creator_fn_map = kernel_creator_fn_map reg @ [(GetMapKey_KernelDef (kernel_def info), info)],
           kernel_def_hash_lookup = (kernel_def_hash_lookup reg)(hashf (kernel_def info) \<mapsto> length (kernel_creator_fn_map reg))\<rparr>)"
  by (simp add: KernelRegistry_Register_def)

lemma index_consistent_empty: "index_consistent hashf empty_registry"
  by (simp add: index_consistent_def empty_registry_def)

lemma index_consistent_Register:
  assumes "index_consistent hashf reg"
  shows "index_consistent hashf (snd (KernelRegistry_Register hashf reg info))"
proof (cases "kernel_def_hash_lookup reg (hashf (kernel_def info))")
  case (Some i)
  then show ?thesis using assms by (simp add: Register_fail)
next
  case None
  let ?n = "length (kernel_creator_fn_map reg)"
  let ?h = "hashf (kernel_def info)"
  let ?reg' = "snd (KernelRegistry_Register hashf reg info)"
  have tab: "kernel_creator_fn_map ?reg' = kernel_creator_fn_map reg @ [(GetMapKey_KernelDef (kernel_def info), info)]"
    and idx: "kernel_def_hash_lookup ?reg' = (kernel_def_hash_lookup reg)(?h \<mapsto> ?n)"
    using None by (simp_all add: Register_ok)
  have old: "i < ?n \<and> hashf (kernel_def (entry_at reg i)) = h"
    if "kernel_def_hash_lookup reg h = Some i" for h i
    using assms that unfolding index_consistent_def by blast
  have all: "kernel_def_hash_lookup reg (hashf (kernel_def (entry_at reg i))) = Some i"
    if "i < ?n" for i
    using assms that unfolding index_consistent_def by blast
  have at_old: "entry_at ?reg' i = entry_at reg i" if "i < ?n" for i
    using that by (simp add: entry_at_def tab nth_append)
  have at_new: "entry_at ?reg' ?n = info"
    by (simp add: entry_at_def tab)
  have len: "length (kernel_creator_fn_map ?reg') = Suc ?n"
    by (simp add: tab)
  have c1: "i < length (kernel_creator_fn_map ?reg') \<and> hashf (kernel_def (entry_at ?reg' i)) = h"
    if "kernel_def_hash_lookup ?reg' h = Some i" for h i
  proof (cases "h = ?h")
    case True
    then have "i = ?n" using that by (simp add: idx)
    then show ?thesis using True at_new len by simp
  next
    case False
    then have "kernel_def_hash_lookup reg h = Some i" using that by (simp add: idx)
    then have "i < ?n" "hashf (kernel_def (entry_at reg i)) = h" using old by blast+
    then show ?thesis using at_old len by simp
  qed
  have c2: "kernel_def_hash_lookup ?reg' (hashf (kernel_def (entry_at ?reg' i))) = Some i"
    if "i < length (kernel_creator_fn_map ?reg')" for i
  proof (cases "i = ?n")
    case True
    then show ?thesis by (simp add: at_new idx)
  next
    case False
    then have lt: "i < ?n" using that len by simp
    have "hashf (kernel_def (entry_at reg i)) \<noteq> ?h"
      using all [OF lt] None by auto
    then show ?thesis using all [OF lt] at_old [OF lt] by (simp add: idx)
  qed
  show ?thesis
    unfolding index_consistent_def using c1 c2 by blast
qed

lemma index_consistent_register_all:
  "index_consistent hashf reg \<Longrightarrow> index_consistent hashf (register_all hashf reg infos)"
  by (induction infos arbitrary: reg) (simp_all add: index_consistent_Register)

lemma index_consistent_registry_of: "index_consistent hashf (registry_of hashf infos)"
  by (simp add: registry_of_def index_consistent_register_all index_consistent_empty)

lemma index_consistent_inj:
  assumes "index_consistent hashf reg"
  shows "inj_on (kernel_def_hash_lookup reg) (dom (kernel_def_hash_lookup reg))"
proof (rule inj_onI)
  fix h1 h2
  assume "h1 \<in> dom (kernel_def_hash_lookup reg)" "h2 \<in> dom (kernel_def_hash_lookup reg)"
    and eq: "kernel_def_hash_lookup reg h1 = kernel_def_hash_lookup reg h2"
  then obtain i where "kernel_def_hash_lookup reg h1 = Some i" "kernel_def_hash_lookup reg h2 = Some i"
    by auto
  then show "h1 = h2"
    using assms unfolding index_consistent_def by metis
qed

lemma candidates_in_table: "i \<in> set (candidates reg key) \<Longrightarrow> i < length (kernel_creator_fn_map reg) \<and> fst (kernel_creator_fn_map reg ! i) = key"
  by (auto simp: candidates_def)

lemma survivors_subset: "set (survivors reg node p res) \<subseteq> set (candidates reg (GetMapKey (Node_OpType node) (Node_Domain node) p))"
  by (auto simp: survivors_def)

lemma TryFindKernel_Inr_iff:
  "TryFindKernel reg node p res = Inr i \<longleftrightarrow> survivors reg node p res = [i]"
proof -
  have "survivors reg node p res = [i] \<Longrightarrow> candidates reg (GetMapKey (Node_OpType node) (Node_Domain node) p) \<noteq> []"
    using survivors_subset [of reg node p res] by auto
  then show ?thesis
    by (auto simp: TryFindKernel_def split: list.splits)
qed

lemma registry_of_single:
  "registry_of hashf [info] =
     \<lparr>kernel_creator_fn_map = [(GetMapKey_KernelDef (kernel_def info), info)],
      kernel_def_hash_lookup = [hashf (kernel_def info) \<mapsto> 0]\<rparr>"
  by (simp add: registry_of_def empty_registry_def KernelRegistry_Register_def)

subsection \<open>Candidates and survivors\<close>

lemma distinct_candidates: "distinct (candidates reg key)"
  by (simp add: candidates_def)

lemma distinct_survivors: "distinct (survivors reg node p res)"
  by (simp add: survivors_def distinct_candidates)

lemma set_survivors:
  "set (survivors reg node p res) =
     {j. j < length (kernel_creator_fn_map reg) \<and>
         fst (kernel_creator_fn_map reg ! j) = GetMapKey (Node_OpType node) (Node_Domain node) p \<and>
         VerifyKernelDef node p (kernel_def (entry_at reg j)) res}"
  by (auto simp: survivors_def candidates_def)

lemma length_survivors:
  "length (survivors reg node p res) =
     card {j. j < length (kernel_creator_fn_map reg) \<and>
         fst (kernel_creator_fn_map reg ! j) = GetMapKey (Node_OpType node) (Node_Domain node) p \<and>
         VerifyKernelDef node p (kernel_def (entry_at reg j)) res}"
  using distinct_card [OF distinct_survivors, of reg node p res] by (simp add: set_survivors)

lemma survivors_Nil_if_no_candidates:
  "candidates reg (GetMapKey (Node_OpType node) (Node_Domain node) p) = [] \<Longrightarrow> survivors reg node p res = []"
  by (simp add: survivors_def)

subsection \<open>The composite key\<close>

text \<open>
  C8. The composite key puts the alias \<open>ai.onnx\<close> in place of an empty domain: the key of
  an op name, the empty domain and a provider is the key of the same op name, the domain
  \<open>ai.onnx\<close> and the same provider, and a kernel definition with an empty domain is
  stored under that key. Hence a registry holding one kernel with an empty domain and no
  type constraints returns it for a node of the same op type, the domain \<open>ai.onnx\<close> and
  either no provider or the kernel's provider, when searched for the kernel's provider;
  Scenario A (\<open>Relu\<close>, \<open>CPU\<close>) is the instance proved after it.
\<close>

theorem GetMapKey_empty_domain_alias:
  "GetMapKey op_name [] provider = GetMapKey op_name ''ai.onnx'' provider \<and>
   (KernelDef_Domain kd = [] \<longrightarrow>
      GetMapKey_KernelDef kd = GetMapKey (KernelDef_OpName kd) ''ai.onnx'' (KernelDef_Provider kd)) \<and>
   (KernelDef_Domain (kernel_def info) = [] \<and> KernelDef_TypeConstraints (kernel_def info) = [] \<and>
    Node_OpType node = KernelDef_OpName (kernel_def info) \<and> Node_Domain node = ''ai.onnx'' \<and>
    (Node_Provider node = None \<or> Node_Provider node = Some (KernelDef_Provider (kernel_def info))) \<longrightarrow>
      TryFindKernel (registry_of hashf [info]) node (KernelDef_Provider (kernel_def info)) res = Inr 0 \<and>
      entry_at (registry_of hashf [info]) 0 = info)"
proof -
  have k: "GetMapKey op_name' [] provider' = GetMapKey op_name' ''ai.onnx'' provider'" for op_name' provider'
    by (simp add: GetMapKey_def kOnnxDomainAlias_def)
  have kd: "KernelDef_Domain kd = [] \<longrightarrow>
      GetMapKey_KernelDef kd = GetMapKey (KernelDef_OpName kd) ''ai.onnx'' (KernelDef_Provider kd)"
    using k by (simp add: GetMapKey_KernelDef_def)
  have m: "KernelDef_Domain (kernel_def info) = [] \<and> KernelDef_TypeConstraints (kernel_def info) = [] \<and>
    Node_OpType node = KernelDef_OpName (kernel_def info) \<and> Node_Domain node = ''ai.onnx'' \<and>
    (Node_Provider node = None \<or> Node_Provider node = Some (KernelDef_Provider (kernel_def info))) \<longrightarrow>
      TryFindKernel (registry_of hashf [info]) node (KernelDef_Provider (kernel_def info)) res = Inr 0 \<and>
      entry_at (registry_of hashf [info]) 0 = info"
  proof
    assume h: "KernelDef_Domain (kernel_def info) = [] \<and> KernelDef_TypeConstraints (kernel_def info) = [] \<and>
      Node_OpType node = KernelDef_OpName (kernel_def info) \<and> Node_Domain node = ''ai.onnx'' \<and>
      (Node_Provider node = None \<or> Node_Provider node = Some (KernelDef_Provider (kernel_def info)))"
    let ?p = "KernelDef_Provider (kernel_def info)"
    let ?reg = "registry_of hashf [info]"
    have key: "GetMapKey_KernelDef (kernel_def info) = GetMapKey (Node_OpType node) (Node_Domain node) ?p"
      using h k by (simp add: GetMapKey_KernelDef_def)
    have c: "candidates ?reg (GetMapKey (Node_OpType node) (Node_Domain node) ?p) = [0]"
      using key by (simp add: candidates_def registry_of_single)
    have e: "entry_at ?reg 0 = info"
      by (simp add: entry_at_def registry_of_single)
    have v: "VerifyKernelDef node ?p (kernel_def info) res"
      using h by (auto simp: VerifyKernelDef_def)
    have "survivors ?reg node ?p res = [0]"
      using c e v by (simp add: survivors_def)
    then show "TryFindKernel ?reg node ?p res = Inr 0 \<and> entry_at ?reg 0 = info"
      using e by (simp add: TryFindKernel_Inr_iff)
  qed
  show ?thesis
    by (intro conjI; rule k kd m)
qed

theorem GetMapKey_empty_domain_alias_witness:
  "GetMapKey ''Relu'' [] ''CPU'' = ''Relu ai.onnx CPU'' \<and>
   GetMapKey ''Relu'' ''ai.onnx'' ''CPU'' = ''Relu ai.onnx CPU'' \<and>
   KernelDef_Domain (kernel_def relu_cpu) = [] \<and>
   GetMapKey_KernelDef (kernel_def relu_cpu) = ''Relu ai.onnx CPU'' \<and>
   Node_OpType relu_node = ''Relu'' \<and> Node_Domain relu_node = ''ai.onnx'' \<and>
   Node_Provider relu_node = Some ''CPU'' \<and>
   TryFindKernel (registry_of example_hash [relu_cpu]) relu_node ''CPU'' empty_resolver = Inr 0 \<and>
   entry_at (registry_of example_hash [relu_cpu]) 0 = relu_cpu"
proof -
  have k: "GetMapKey ''Relu'' ''ai.onnx'' ''CPU'' = ''Relu ai.onnx CPU''"
    by (simp add: GetMapKey_def)
  have p: "KernelDef_Provider (kernel_def relu_cpu) = ''CPU''" "KernelDef_OpName (kernel_def relu_cpu) = ''Relu''"
    by (simp_all add: relu_cpu_def)
  have d: "KernelDef_Domain (kernel_def relu_cpu) = []"
    by (simp add: relu_cpu_def)
  have n: "Node_OpType relu_node = ''Relu''" "Node_Domain relu_node = ''ai.onnx''"
      "Node_Provider relu_node = Some ''CPU''"
    by (simp_all add: relu_node_def)
  have h: "KernelDef_Domain (kernel_def relu_cpu) = [] \<and> KernelDef_TypeConstraints (kernel_def relu_cpu) = [] \<and>
    Node_OpType relu_node = KernelDef_OpName (kernel_def relu_cpu) \<and> Node_Domain relu_node = ''ai.onnx'' \<and>
    (Node_Provider relu_node = None \<or> Node_Provider relu_node = Some (KernelDef_Provider (kernel_def relu_cpu)))"
    by (simp add: relu_cpu_def relu_node_def)
  note T = GetMapKey_empty_domain_alias
      [of "''Relu''" "''CPU''" "kernel_def relu_cpu" relu_cpu relu_node example_hash empty_resolver]
  note r1 = T [THEN conjunct1]
  note r2 = T [THEN conjunct2, THEN conjunct1, rule_format, OF d]
  note r3 = T [THEN conjunct2, THEN conjunct2, rule_format, OF h]
  show ?thesis
    using k p d n r1 r2 r3 by simp
qed

subsection \<open>HasImplementationOf\<close>

text \<open>
  C10. \<open>HasImplementationOf\<close> returns true exactly if the status returned by the
  three-argument \<open>TryFindKernel\<close> is OK, whatever that overload computes; the entry left in
  the out-pointer has no influence on the answer. The registry is only read: the function
  yields a truth value and no registry.
\<close>

theorem HasImplementationOf_iff_IsOK:
  "HasImplementationOf TryFindKernel3 r node exec_provider
     = IsOK (fst (TryFindKernel3 r node exec_provider)) \<and>
   HasImplementationOf TryFindKernel3 r node exec_provider
     = HasImplementationOf (\<lambda>r' node' p'. (fst (TryFindKernel3 r' node' p'), None)) r node exec_provider"
  by (simp add: HasImplementationOf_def split: prod.splits)

lemma HasImplementationOf_matcher:
  "HasImplementationOf (\<lambda>r' node' p'. status_and_out (TryFindKernel r' node' p' res)) r node exec_provider
     \<longleftrightarrow> (\<exists>i. TryFindKernel r node exec_provider res = Inr i)"
  by (cases "TryFindKernel r node exec_provider res")
     (simp_all add: HasImplementationOf_def status_and_out_def)

subsection \<open>Outcome of the search\<close>

text \<open>
  C1, as amended. The number of survivors is the number of entries stored under the
  composite key that pass verification. The search succeeds if and only if there is
  exactly one survivor, and then returns a reference to that survivor, an entry of the
  registry's table under the key that passes verification. With no candidate under the
  key it fails with \<open>NoKernelForOp\<close>; with candidates of which none survives it fails with
  \<open>NoMatchingKernel\<close>; with more than one survivor it fails with \<open>AmbiguousKernel\<close>.
\<close>

theorem TryFindKernel_outcome:
  "length (survivors reg node p res) =
     card {j. j < length (kernel_creator_fn_map reg) \<and>
         fst (kernel_creator_fn_map reg ! j) = GetMapKey (Node_OpType node) (Node_Domain node) p \<and>
         VerifyKernelDef node p (kernel_def (entry_at reg j)) res} \<and>
   ((\<exists>i. TryFindKernel reg node p res = Inr i) \<longleftrightarrow> length (survivors reg node p res) = 1) \<and>
   (\<forall>i. TryFindKernel reg node p res = Inr i \<longrightarrow>
        survivors reg node p res = [i] \<and>
        i < length (kernel_creator_fn_map reg) \<and>
        fst (kernel_creator_fn_map reg ! i) = GetMapKey (Node_OpType node) (Node_Domain node) p \<and>
        VerifyKernelDef node p (kernel_def (entry_at reg i)) res) \<and>
   (candidates reg (GetMapKey (Node_OpType node) (Node_Domain node) p) = [] \<longrightarrow>
        TryFindKernel reg node p res = Inl NoKernelForOp) \<and>
   (candidates reg (GetMapKey (Node_OpType node) (Node_Domain node) p) \<noteq> [] \<and>
    length (survivors reg node p res) = 0 \<longrightarrow>
        TryFindKernel reg node p res = Inl NoMatchingKernel) \<and>
   (1 < length (survivors reg node p res) \<longrightarrow>
        TryFindKernel reg node p res = Inl AmbiguousKernel)"
proof -
  let ?key = "GetMapKey (Node_OpType node) (Node_Domain node) p"
  have one: "(\<exists>i. TryFindKernel reg node p res = Inr i) \<longleftrightarrow> length (survivors reg node p res) = 1"
    by (auto simp: TryFindKernel_Inr_iff length_Suc_conv)
  have ret: "\<forall>i. TryFindKernel reg node p res = Inr i \<longrightarrow>
        survivors reg node p res = [i] \<and>
        i < length (kernel_creator_fn_map reg) \<and>
        fst (kernel_creator_fn_map reg ! i) = ?key \<and>
        VerifyKernelDef node p (kernel_def (entry_at reg i)) res"
  proof (intro allI impI)
    fix i
    assume "TryFindKernel reg node p res = Inr i"
    then have s: "survivors reg node p res = [i]"
      by (simp add: TryFindKernel_Inr_iff)
    then have "i \<in> set (survivors reg node p res)" by simp
    then show "survivors reg node p res = [i] \<and>
        i < length (kernel_creator_fn_map reg) \<and>
        fst (kernel_creator_fn_map reg ! i) = ?key \<and>
        VerifyKernelDef node p (kernel_def (entry_at reg i)) res"
      using s unfolding set_survivors by simp
  qed
  have none: "candidates reg ?key = [] \<longrightarrow> TryFindKernel reg node p res = Inl NoKernelForOp"
    by (simp add: TryFindKernel_def)
  have zero: "candidates reg ?key \<noteq> [] \<and> length (survivors reg node p res) = 0 \<longrightarrow>
                TryFindKernel reg node p res = Inl NoMatchingKernel"
    by (simp add: TryFindKernel_def)
  have many: "1 < length (survivors reg node p res) \<longrightarrow>
                TryFindKernel reg node p res = Inl AmbiguousKernel"
  proof
    assume len: "1 < length (survivors reg node p res)"
    show "TryFindKernel reg node p res = Inl AmbiguousKernel"
    proof (cases "survivors reg node p res")
      case Nil
      then show ?thesis using len by simp
    next
      case (Cons i t)
      show ?thesis
      proof (cases t)
        case Nil
        then show ?thesis using len Cons by simp
      next
        case (Cons j rest)
        have "candidates reg ?key \<noteq> []"
          using survivors_Nil_if_no_candidates [of reg node p res] \<open>survivors reg node p res = i # t\<close>
          by auto
        then show ?thesis
          using Cons \<open>survivors reg node p res = i # t\<close> by (simp add: TryFindKernel_def)
      qed
    qed
  qed
  note len = length_survivors [of reg node p res]
  show ?thesis
    by (intro conjI; rule len one ret none zero many)
qed

theorem TryFindKernel_outcome_witness:
  "TryFindKernel example_registry (clip_node ''int32'') ''CPU'' clip_resolver = Inr 2 \<and>
   (survivors example_registry (clip_node ''int32'') ''CPU'' clip_resolver = [2] \<and>
    2 < length (kernel_creator_fn_map example_registry) \<and>
    fst (kernel_creator_fn_map example_registry ! 2)
      = GetMapKey (Node_OpType (clip_node ''int32'')) (Node_Domain (clip_node ''int32'')) ''CPU'' \<and>
    VerifyKernelDef (clip_node ''int32'') ''CPU'' (kernel_def (entry_at example_registry 2)) clip_resolver) \<and>
   (candidates example_registry
      (GetMapKey (Node_OpType (clip_node ''int32'')) (Node_Domain (clip_node ''int32'')) ''GPU'') = [] \<and>
    TryFindKernel example_registry (clip_node ''int32'') ''GPU'' clip_resolver = Inl NoKernelForOp) \<and>
   ((candidates example_registry
      (GetMapKey (Node_OpType (clip_node ''int8'')) (Node_Domain (clip_node ''int8'')) ''CPU'') \<noteq> [] \<and>
     length (survivors example_registry (clip_node ''int8'') ''CPU'' clip_resolver) = 0) \<and>
    TryFindKernel example_registry (clip_node ''int8'') ''CPU'' clip_resolver = Inl NoMatchingKernel) \<and>
   (1 < length (survivors example_registry (clip_node ''float32'') ''CPU'' clip_resolver) \<and>
    TryFindKernel example_registry (clip_node ''float32'') ''CPU'' clip_resolver = Inl AmbiguousKernel)"
proof -
  have h1: "TryFindKernel example_registry (clip_node ''int32'') ''CPU'' clip_resolver = Inr 2"
    by code_simp
  have h2: "candidates example_registry
      (GetMapKey (Node_OpType (clip_node ''int32'')) (Node_Domain (clip_node ''int32'')) ''GPU'') = []"
    by code_simp
  have h3: "candidates example_registry
      (GetMapKey (Node_OpType (clip_node ''int8'')) (Node_Domain (clip_node ''int8'')) ''CPU'') \<noteq> [] \<and>
     length (survivors example_registry (clip_node ''int8'') ''CPU'' clip_resolver) = 0"
    by code_simp
  have h4: "1 < length (survivors example_registry (clip_node ''float32'') ''CPU'' clip_resolver)"
    by code_simp
  note r1 = TryFindKernel_outcome [of example_registry "clip_node ''int32''" "''CPU''" clip_resolver,
      THEN conjunct2, THEN conjunct2, THEN conjunct1, rule_format, OF h1]
  note r2 = TryFindKernel_outcome [of example_registry "clip_node ''int32''" "''GPU''" clip_resolver,
      THEN conjunct2, THEN conjunct2, THEN conjunct2, THEN conjunct1, rule_format, OF h2]
  note r3 = TryFindKernel_outcome [of example_registry "clip_node ''int8''" "''CPU''" clip_resolver,
      THEN conjunct2, THEN conjunct2, THEN conjunct2, THEN conjunct2, THEN conjunct1, rule_format, OF h3]
  note r4 = TryFindKernel_outcome [of example_registry "clip_node ''float32''" "''CPU''" clip_resolver,
      THEN conjunct2, THEN conjunct2, THEN conjunct2, THEN conjunct2, THEN conjunct2, rule_format, OF h4]
  show ?thesis
    using h1 r1 h2 r2 h3 r3 h4 r4 by blast
qed

text \<open>
  C1 as first stated, that no survivor always means \<open>NoMatchingKernel\<close>, fails
  where nothing is registered under the key: a \<open>Clip\<close> node searched on \<open>GPU\<close> in a
  registry of \<open>CPU\<close> kernels has no survivor and the failure is \<open>NoKernelForOp\<close>.
\<close>

theorem TryFindKernel_zero_survivors_counterexample:
  "length (survivors example_registry (clip_node ''float32'') ''GPU'' clip_resolver) = 0 \<and>
   TryFindKernel example_registry (clip_node ''float32'') ''GPU'' clip_resolver = Inl NoKernelForOp \<and>
   TryFindKernel example_registry (clip_node ''float32'') ''GPU'' clip_resolver \<noteq> Inl NoMatchingKernel"
  by code_simp

subsection \<open>Provider gating\<close>

text \<open>
  C2. A candidate that passes verification for a node with an assigned provider has that
  provider, and the result of verification does not depend on the target provider
  supplied by the caller; a candidate that passes for a node without a provider has the
  target provider. So a node assigned to \<open>P\<close> never passes a candidate of a provider
  other than \<open>P\<close>, whatever the types, and a successful search for such a node returns an
  entry of provider \<open>P\<close>.
\<close>

theorem VerifyKernelDef_provider_gating:
  "(\<forall>P. Node_Provider node = Some P \<and> VerifyKernelDef node exec_provider kd res \<longrightarrow>
        KernelDef_Provider kd = P) \<and>
   (Node_Provider node = None \<and> VerifyKernelDef node exec_provider kd res \<longrightarrow>
        KernelDef_Provider kd = exec_provider) \<and>
   (Node_Provider node \<noteq> None \<longrightarrow>
        VerifyKernelDef node exec_provider kd res = VerifyKernelDef node other_provider kd res) \<and>
   (\<forall>P. Node_Provider node = Some P \<and> KernelDef_Provider kd \<noteq> P \<longrightarrow>
        \<not> VerifyKernelDef node exec_provider kd res) \<and>
   (\<forall>P i. Node_Provider node = Some P \<and> TryFindKernel reg node exec_provider res = Inr i \<longrightarrow>
        KernelDef_Provider (kernel_def (entry_at reg i)) = P)"
proof -
  have a: "KernelDef_Provider kd' = P"
    if "Node_Provider node = Some P" "VerifyKernelDef node exec_provider kd' res" for P kd'
    using that by (simp add: VerifyKernelDef_def)
  have b: "Node_Provider node = None \<and> VerifyKernelDef node exec_provider kd res \<longrightarrow>
        KernelDef_Provider kd = exec_provider"
    by (auto simp: VerifyKernelDef_def)
  have c: "Node_Provider node \<noteq> None \<longrightarrow>
        VerifyKernelDef node exec_provider kd res = VerifyKernelDef node other_provider kd res"
    by (auto simp: VerifyKernelDef_def)
  have d: "\<forall>P i. Node_Provider node = Some P \<and> TryFindKernel reg node exec_provider res = Inr i \<longrightarrow>
        KernelDef_Provider (kernel_def (entry_at reg i)) = P"
  proof (intro allI impI)
    fix P i
    assume h: "Node_Provider node = Some P \<and> TryFindKernel reg node exec_provider res = Inr i"
    then have "i \<in> set (survivors reg node exec_provider res)"
      by (simp add: TryFindKernel_Inr_iff)
    then have "VerifyKernelDef node exec_provider (kernel_def (entry_at reg i)) res"
      unfolding set_survivors by simp
    then show "KernelDef_Provider (kernel_def (entry_at reg i)) = P"
      using h a by blast
  qed
  have a1: "\<forall>P. Node_Provider node = Some P \<and> VerifyKernelDef node exec_provider kd res \<longrightarrow>
        KernelDef_Provider kd = P"
    using a by blast
  have a2: "\<forall>P. Node_Provider node = Some P \<and> KernelDef_Provider kd \<noteq> P \<longrightarrow>
        \<not> VerifyKernelDef node exec_provider kd res"
    using a by blast
  show ?thesis
    by (intro conjI; rule a1 b c a2 d)
qed

theorem VerifyKernelDef_provider_gating_witness:
  "(Node_Provider ((clip_node ''int32'')\<lparr>Node_Provider := Some ''CPU''\<rparr>) = Some ''CPU'' \<and>
    VerifyKernelDef ((clip_node ''int32'')\<lparr>Node_Provider := Some ''CPU''\<rparr>) ''GPU''
       (kernel_def clip_cpu_int32) clip_resolver) \<and>
   KernelDef_Provider (kernel_def clip_cpu_int32) = ''CPU'' \<and>
   (Node_Provider (clip_node ''int32'') = None \<and>
    VerifyKernelDef (clip_node ''int32'') ''CPU'' (kernel_def clip_cpu_int32) clip_resolver) \<and>
   (Node_Provider ((clip_node ''int32'')\<lparr>Node_Provider := Some ''GPU''\<rparr>) = Some ''GPU'' \<and>
    KernelDef_Provider (kernel_def clip_cpu_int32) \<noteq> ''GPU'') \<and>
   \<not> VerifyKernelDef ((clip_node ''int32'')\<lparr>Node_Provider := Some ''GPU''\<rparr>) ''CPU''
       (kernel_def clip_cpu_int32) clip_resolver \<and>
   (Node_Provider ((clip_node ''int32'')\<lparr>Node_Provider := Some ''CPU''\<rparr>) = Some ''CPU'' \<and>
    TryFindKernel example_registry ((clip_node ''int32'')\<lparr>Node_Provider := Some ''CPU''\<rparr>) ''CPU'' clip_resolver
      = Inr 2) \<and>
   KernelDef_Provider (kernel_def (entry_at example_registry 2)) = ''CPU''"
proof -
  have h1: "Node_Provider ((clip_node ''int32'')\<lparr>Node_Provider := Some ''CPU''\<rparr>) = Some ''CPU'' \<and>
    VerifyKernelDef ((clip_node ''int32'')\<lparr>Node_Provider := Some ''CPU''\<rparr>) ''GPU''
       (kernel_def clip_cpu_int32) clip_resolver"
    by code_simp
  have h2: "Node_Provider (clip_node ''int32'') = None \<and>
    VerifyKernelDef (clip_node ''int32'') ''CPU'' (kernel_def clip_cpu_int32) clip_resolver"
    by code_simp
  have h3: "Node_Provider ((clip_node ''int32'')\<lparr>Node_Provider := Some ''GPU''\<rparr>) = Some ''GPU'' \<and>
    KernelDef_Provider (kernel_def clip_cpu_int32) \<noteq> ''GPU''"
    by code_simp
  have h4: "Node_Provider ((clip_node ''int32'')\<lparr>Node_Provider := Some ''CPU''\<rparr>) = Some ''CPU'' \<and>
    TryFindKernel example_registry ((clip_node ''int32'')\<lparr>Node_Provider := Some ''CPU''\<rparr>) ''CPU'' clip_resolver
      = Inr 2"
    by code_simp
  note r1 = VerifyKernelDef_provider_gating
      [of "(clip_node ''int32'')\<lparr>Node_Provider := Some ''CPU''\<rparr>" "''GPU''" "kernel_def clip_cpu_int32"
          clip_resolver, THEN conjunct1, rule_format, OF h1]
  note r2 = VerifyKernelDef_provider_gating
      [of "clip_node ''int32''" "''CPU''" "kernel_def clip_cpu_int32" clip_resolver,
       THEN conjunct2, THEN conjunct1, rule_format, OF h2]
  note r3 = VerifyKernelDef_provider_gating
      [of "(clip_node ''int32'')\<lparr>Node_Provider := Some ''GPU''\<rparr>" "''CPU''" "kernel_def clip_cpu_int32"
          clip_resolver, THEN conjunct2, THEN conjunct2, THEN conjunct2, THEN conjunct1, rule_format, OF h3]
  note r4 = VerifyKernelDef_provider_gating
      [of "(clip_node ''int32'')\<lparr>Node_Provider := Some ''CPU''\<rparr>" "''CPU''" _ clip_resolver _ example_registry,
       THEN conjunct2, THEN conjunct2, THEN conjunct2, THEN conjunct2, rule_format, OF h4]
  show ?thesis
    using h1 r1 h2 r2 h3 r3 h4 r4 by blast
qed

subsection \<open>The hash index\<close>

text \<open>
  C4. In every registry built by registrations from the empty one, the hash index is
  injective; registering a kernel whose hash equals that of an entry already in the table
  fails with \<open>DuplicateHash\<close> and returns the registry unchanged; and registering two
  kernels whose hashes differ from each other and from those already in the table
  succeeds twice, after which each is found by its hash at its own reference.
\<close>

theorem hash_index_injective:
  fixes hashf :: "KernelDef \<Rightarrow> 'h" and infos :: "KernelCreateInfo list"
  defines "reg \<equiv> registry_of hashf infos"
  shows
  "inj_on (kernel_def_hash_lookup reg) (dom (kernel_def_hash_lookup reg)) \<and>
   ((\<exists>i < length (kernel_creator_fn_map reg).
        hashf (kernel_def (entry_at reg i)) = hashf (kernel_def info)) \<longrightarrow>
      KernelRegistry_Register hashf reg info = (Failed DuplicateHash, reg)) \<and>
   (hashf (kernel_def a) \<noteq> hashf (kernel_def b) \<and>
    (\<forall>i < length (kernel_creator_fn_map reg).
        hashf (kernel_def (entry_at reg i)) \<noteq> hashf (kernel_def a) \<and>
        hashf (kernel_def (entry_at reg i)) \<noteq> hashf (kernel_def b)) \<longrightarrow>
      fst (KernelRegistry_Register hashf reg a) = OK \<and>
      fst (KernelRegistry_Register hashf (snd (KernelRegistry_Register hashf reg a)) b) = OK \<and>
      TryFindKernelByHash (snd (KernelRegistry_Register hashf (snd (KernelRegistry_Register hashf reg a)) b))
          (hashf (kernel_def a)) = Some (length (kernel_creator_fn_map reg)) \<and>
      entry_at (snd (KernelRegistry_Register hashf (snd (KernelRegistry_Register hashf reg a)) b))
          (length (kernel_creator_fn_map reg)) = a \<and>
      TryFindKernelByHash (snd (KernelRegistry_Register hashf (snd (KernelRegistry_Register hashf reg a)) b))
          (hashf (kernel_def b)) = Some (Suc (length (kernel_creator_fn_map reg))) \<and>
      entry_at (snd (KernelRegistry_Register hashf (snd (KernelRegistry_Register hashf reg a)) b))
          (Suc (length (kernel_creator_fn_map reg))) = b)"
proof -
  have inv: "index_consistent hashf reg"
    unfolding reg_def by (rule index_consistent_registry_of)
  have indexed: "kernel_def_hash_lookup reg (hashf (kernel_def (entry_at reg i))) = Some i"
    if "i < length (kernel_creator_fn_map reg)" for i
    using inv that unfolding index_consistent_def by blast
  have absent: "kernel_def_hash_lookup reg h = None"
    if "\<forall>i < length (kernel_creator_fn_map reg). hashf (kernel_def (entry_at reg i)) \<noteq> h" for h
  proof (cases "kernel_def_hash_lookup reg h")
    case None
    then show ?thesis .
  next
    case (Some i)
    then have "i < length (kernel_creator_fn_map reg) \<and> hashf (kernel_def (entry_at reg i)) = h"
      using inv unfolding index_consistent_def by blast
    then show ?thesis using that by blast
  qed
  have p1: "inj_on (kernel_def_hash_lookup reg) (dom (kernel_def_hash_lookup reg))"
    using inv by (rule index_consistent_inj)
  have p2: "(\<exists>i < length (kernel_creator_fn_map reg).
        hashf (kernel_def (entry_at reg i)) = hashf (kernel_def info)) \<longrightarrow>
      KernelRegistry_Register hashf reg info = (Failed DuplicateHash, reg)"
  proof
    assume "\<exists>i < length (kernel_creator_fn_map reg).
        hashf (kernel_def (entry_at reg i)) = hashf (kernel_def info)"
    then obtain i where "i < length (kernel_creator_fn_map reg)"
      and "hashf (kernel_def (entry_at reg i)) = hashf (kernel_def info)" by blast
    then have "kernel_def_hash_lookup reg (hashf (kernel_def info)) = Some i"
      using indexed by metis
    then show "KernelRegistry_Register hashf reg info = (Failed DuplicateHash, reg)"
      by (rule Register_fail)
  qed
  have p3: "hashf (kernel_def a) \<noteq> hashf (kernel_def b) \<and>
    (\<forall>i < length (kernel_creator_fn_map reg).
        hashf (kernel_def (entry_at reg i)) \<noteq> hashf (kernel_def a) \<and>
        hashf (kernel_def (entry_at reg i)) \<noteq> hashf (kernel_def b)) \<longrightarrow>
      fst (KernelRegistry_Register hashf reg a) = OK \<and>
      fst (KernelRegistry_Register hashf (snd (KernelRegistry_Register hashf reg a)) b) = OK \<and>
      TryFindKernelByHash (snd (KernelRegistry_Register hashf (snd (KernelRegistry_Register hashf reg a)) b))
          (hashf (kernel_def a)) = Some (length (kernel_creator_fn_map reg)) \<and>
      entry_at (snd (KernelRegistry_Register hashf (snd (KernelRegistry_Register hashf reg a)) b))
          (length (kernel_creator_fn_map reg)) = a \<and>
      TryFindKernelByHash (snd (KernelRegistry_Register hashf (snd (KernelRegistry_Register hashf reg a)) b))
          (hashf (kernel_def b)) = Some (Suc (length (kernel_creator_fn_map reg))) \<and>
      entry_at (snd (KernelRegistry_Register hashf (snd (KernelRegistry_Register hashf reg a)) b))
          (Suc (length (kernel_creator_fn_map reg))) = b"
  proof
    assume h: "hashf (kernel_def a) \<noteq> hashf (kernel_def b) \<and>
      (\<forall>i < length (kernel_creator_fn_map reg).
        hashf (kernel_def (entry_at reg i)) \<noteq> hashf (kernel_def a) \<and>
        hashf (kernel_def (entry_at reg i)) \<noteq> hashf (kernel_def b))"
    let ?reg1 = "snd (KernelRegistry_Register hashf reg a)"
    let ?reg2 = "snd (KernelRegistry_Register hashf ?reg1 b)"
    have ne: "hashf (kernel_def a) \<noteq> hashf (kernel_def b)" "hashf (kernel_def b) \<noteq> hashf (kernel_def a)"
      using h by auto
    have na: "kernel_def_hash_lookup reg (hashf (kernel_def a)) = None"
      using h by (intro absent) blast
    have nb: "kernel_def_hash_lookup reg (hashf (kernel_def b)) = None"
      using h by (intro absent) blast
    have r1: "KernelRegistry_Register hashf reg a =
       (OK, \<lparr>kernel_creator_fn_map = kernel_creator_fn_map reg @ [(GetMapKey_KernelDef (kernel_def a), a)],
             kernel_def_hash_lookup = (kernel_def_hash_lookup reg)(hashf (kernel_def a) \<mapsto> length (kernel_creator_fn_map reg))\<rparr>)"
      using na by (rule Register_ok)
    have nb1: "kernel_def_hash_lookup ?reg1 (hashf (kernel_def b)) = None"
      using nb ne by (simp add: r1)
    have r2: "KernelRegistry_Register hashf ?reg1 b =
       (OK, \<lparr>kernel_creator_fn_map = kernel_creator_fn_map ?reg1 @ [(GetMapKey_KernelDef (kernel_def b), b)],
             kernel_def_hash_lookup = (kernel_def_hash_lookup ?reg1)(hashf (kernel_def b) \<mapsto> length (kernel_creator_fn_map ?reg1))\<rparr>)"
      using nb1 by (rule Register_ok)
    have s1: "fst (KernelRegistry_Register hashf reg a) = OK"
      by (simp add: r1)
    have s2: "fst (KernelRegistry_Register hashf ?reg1 b) = OK"
      by (simp add: r2)
    have fa: "TryFindKernelByHash ?reg2 (hashf (kernel_def a)) = Some (length (kernel_creator_fn_map reg))"
      using ne by (simp add: TryFindKernelByHash_def r2) (simp add: r1)
    have ea: "entry_at ?reg2 (length (kernel_creator_fn_map reg)) = a"
      by (simp add: entry_at_def r2) (simp add: r1 nth_append)
    have fb: "TryFindKernelByHash ?reg2 (hashf (kernel_def b)) = Some (Suc (length (kernel_creator_fn_map reg)))"
      by (simp add: TryFindKernelByHash_def r2) (simp add: r1)
    have eb: "entry_at ?reg2 (Suc (length (kernel_creator_fn_map reg))) = b"
      by (simp add: entry_at_def r2) (simp add: r1 nth_append)
    show "fst (KernelRegistry_Register hashf reg a) = OK \<and>
      fst (KernelRegistry_Register hashf ?reg1 b) = OK \<and>
      TryFindKernelByHash ?reg2 (hashf (kernel_def a)) = Some (length (kernel_creator_fn_map reg)) \<and>
      entry_at ?reg2 (length (kernel_creator_fn_map reg)) = a \<and>
      TryFindKernelByHash ?reg2 (hashf (kernel_def b)) = Some (Suc (length (kernel_creator_fn_map reg))) \<and>
      entry_at ?reg2 (Suc (length (kernel_creator_fn_map reg))) = b"
      by (intro conjI; rule s1 s2 fa ea fb eb)
  qed
  show ?thesis
    by (intro conjI; rule p1 p2 p3)
qed

theorem hash_index_injective_witness:
  "(\<exists>i < length (kernel_creator_fn_map example_registry).
      example_hash (kernel_def (entry_at example_registry i)) = example_hash (kernel_def clip_cpu_int32)) \<and>
   KernelRegistry_Register example_hash example_registry clip_cpu_int32
     = (Failed DuplicateHash, example_registry) \<and>
   example_hash (kernel_def clip_cpu_float32) \<noteq> example_hash (kernel_def clip_cpu_int32) \<and>
   length (kernel_creator_fn_map (registry_of example_hash [relu_cpu])) = 1 \<and>
   example_hash (kernel_def (entry_at (registry_of example_hash [relu_cpu]) 0))
     \<noteq> example_hash (kernel_def clip_cpu_float32) \<and>
   example_hash (kernel_def (entry_at (registry_of example_hash [relu_cpu]) 0))
     \<noteq> example_hash (kernel_def clip_cpu_int32) \<and>
   fst (KernelRegistry_Register example_hash (registry_of example_hash [relu_cpu]) clip_cpu_float32) = OK \<and>
   fst (KernelRegistry_Register example_hash
        (snd (KernelRegistry_Register example_hash (registry_of example_hash [relu_cpu]) clip_cpu_float32))
        clip_cpu_int32) = OK \<and>
   TryFindKernelByHash
     (snd (KernelRegistry_Register example_hash
        (snd (KernelRegistry_Register example_hash (registry_of example_hash [relu_cpu]) clip_cpu_float32))
        clip_cpu_int32))
     (example_hash (kernel_def clip_cpu_float32))
     = Some (length (kernel_creator_fn_map (registry_of example_hash [relu_cpu]))) \<and>
   TryFindKernelByHash
     (snd (KernelRegistry_Register example_hash
        (snd (KernelRegistry_Register example_hash (registry_of example_hash [relu_cpu]) clip_cpu_float32))
        clip_cpu_int32))
     (example_hash (kernel_def clip_cpu_int32))
     = Some (Suc (length (kernel_creator_fn_map (registry_of example_hash [relu_cpu]))))"
proof -
  have "2 < length (kernel_creator_fn_map example_registry) \<and>
      example_hash (kernel_def (entry_at example_registry 2)) = example_hash (kernel_def clip_cpu_int32)"
    by code_simp
  then have h1: "\<exists>i < length (kernel_creator_fn_map example_registry).
      example_hash (kernel_def (entry_at example_registry i)) = example_hash (kernel_def clip_cpu_int32)"
    by blast
  have h2: "example_hash (kernel_def clip_cpu_float32) \<noteq> example_hash (kernel_def clip_cpu_int32) \<and>
    (\<forall>i < length (kernel_creator_fn_map (registry_of example_hash [relu_cpu])).
        example_hash (kernel_def (entry_at (registry_of example_hash [relu_cpu]) i))
          \<noteq> example_hash (kernel_def clip_cpu_float32) \<and>
        example_hash (kernel_def (entry_at (registry_of example_hash [relu_cpu]) i))
          \<noteq> example_hash (kernel_def clip_cpu_int32))"
    by (simp add: registry_of_single entry_at_def ex_defs)
  note r1 = hash_index_injective
      [of example_hash "[relu_cpu, clip_cpu_float32, clip_cpu_int32, clip_cpu_floats]" clip_cpu_int32,
       folded example_registry_def, THEN conjunct2, THEN conjunct1, rule_format, OF h1]
  note r2 = hash_index_injective
      [of example_hash "[relu_cpu]" _ clip_cpu_float32 clip_cpu_int32,
       THEN conjunct2, THEN conjunct2, rule_format, OF h2]
  have c: "example_hash (kernel_def clip_cpu_float32) \<noteq> example_hash (kernel_def clip_cpu_int32) \<and>
   length (kernel_creator_fn_map (registry_of example_hash [relu_cpu])) = 1 \<and>
   example_hash (kernel_def (entry_at (registry_of example_hash [relu_cpu]) 0))
     \<noteq> example_hash (kernel_def clip_cpu_float32) \<and>
   example_hash (kernel_def (entry_at (registry_of example_hash [relu_cpu]) 0))
     \<noteq> example_hash (kernel_def clip_cpu_int32)"
    by (simp add: registry_of_single entry_at_def ex_defs)
  show ?thesis
    using h1 r1 c r2 by blast
qed

text \<open>
  C5. In every registry built by registrations from the empty one, the lookup by hash is
  the lookup in the hash index: the hash of every entry of the table returns the reference
  of that entry, every indexed hash returns a reference into the table to an entry of
  that hash, and a hash absent from the index fails with \<open>HashNotFound\<close>. The lookup
  takes no node, provider or resolver, so nothing is verified again; the instance after
  it finds by hash an entry that a node does not verify against.
\<close>

theorem TryFindKernelByHash_direct_lookup:
  fixes hashf :: "KernelDef \<Rightarrow> 'h" and infos :: "KernelCreateInfo list"
  defines "reg \<equiv> registry_of hashf infos"
  shows
  "(\<forall>i < length (kernel_creator_fn_map reg).
       TryFindKernelByHash reg (hashf (kernel_def (entry_at reg i))) = Some i \<and>
       findKernelByHash reg (hashf (kernel_def (entry_at reg i))) = Inr i) \<and>
   (\<forall>h i. kernel_def_hash_lookup reg h = Some i \<longrightarrow>
       findKernelByHash reg h = Inr i \<and>
       i < length (kernel_creator_fn_map reg) \<and>
       hashf (kernel_def (entry_at reg i)) = h) \<and>
   (\<forall>h. kernel_def_hash_lookup reg h = None \<longrightarrow>
       TryFindKernelByHash reg h = None \<and> findKernelByHash reg h = Inl HashNotFound)"
proof -
  have inv: "index_consistent hashf reg"
    unfolding reg_def by (rule index_consistent_registry_of)
  have p1: "\<forall>i < length (kernel_creator_fn_map reg).
       TryFindKernelByHash reg (hashf (kernel_def (entry_at reg i))) = Some i \<and>
       findKernelByHash reg (hashf (kernel_def (entry_at reg i))) = Inr i"
    using inv unfolding index_consistent_def
    by (simp add: TryFindKernelByHash_def findKernelByHash_def)
  have p2: "\<forall>h i. kernel_def_hash_lookup reg h = Some i \<longrightarrow>
       findKernelByHash reg h = Inr i \<and>
       i < length (kernel_creator_fn_map reg) \<and>
       hashf (kernel_def (entry_at reg i)) = h"
    using inv unfolding index_consistent_def
    by (simp add: TryFindKernelByHash_def findKernelByHash_def)
  have p3: "\<forall>h. kernel_def_hash_lookup reg h = None \<longrightarrow>
       TryFindKernelByHash reg h = None \<and> findKernelByHash reg h = Inl HashNotFound"
    by (simp add: TryFindKernelByHash_def findKernelByHash_def)
  show ?thesis
    by (intro conjI; rule p1 p2 p3)
qed

theorem TryFindKernelByHash_direct_lookup_witness:
  "2 < length (kernel_creator_fn_map example_registry) \<and>
   TryFindKernelByHash example_registry (example_hash (kernel_def (entry_at example_registry 2))) = Some 2 \<and>
   \<not> VerifyKernelDef (clip_node ''float64'') ''GPU'' (kernel_def (entry_at example_registry 2)) clip_resolver \<and>
   kernel_def_hash_lookup example_registry 211 = Some 2 \<and>
   findKernelByHash example_registry 211 = Inr 2 \<and>
   example_hash (kernel_def (entry_at example_registry 2)) = 211 \<and>
   kernel_def_hash_lookup example_registry 7 = None \<and>
   findKernelByHash example_registry 7 = Inl HashNotFound"
proof -
  have h1: "2 < length (kernel_creator_fn_map example_registry)"
    by code_simp
  have h2: "kernel_def_hash_lookup example_registry 211 = Some 2"
    by (simp add: example_registry_def registry_of_def empty_registry_def KernelRegistry_Register_def
      GetMapKey_KernelDef_def GetMapKey_def kOnnxDomainAlias_def ex_defs)
  have h3: "kernel_def_hash_lookup example_registry 7 = None"
    by (simp add: example_registry_def registry_of_def empty_registry_def KernelRegistry_Register_def
      GetMapKey_KernelDef_def GetMapKey_def kOnnxDomainAlias_def ex_defs)
  have nv: "\<not> VerifyKernelDef (clip_node ''float64'') ''GPU'' (kernel_def (entry_at example_registry 2)) clip_resolver"
    by code_simp
  note T = TryFindKernelByHash_direct_lookup
      [of example_hash "[relu_cpu, clip_cpu_float32, clip_cpu_int32, clip_cpu_floats]",
       folded example_registry_def]
  note r1 = T [THEN conjunct1, rule_format, OF h1]
  note r2 = T [THEN conjunct2, THEN conjunct1, rule_format, OF h2]
  note r3 = T [THEN conjunct2, THEN conjunct2, rule_format, OF h3]
  show ?thesis
    using h1 r1 nv h2 r2 h3 r3 by blast
qed

text \<open>
  C3. In every registry built by registrations from the empty one, if the search with
  the resolver succeeds for a node and returns an entry, then the lookup by the hash of
  that entry's definition, the hash a full build records for the node, returns the same
  entry.
\<close>

theorem hash_path_equivalence:
  assumes "TryFindKernel (registry_of hashf infos) node exec_provider res = Inr i"
  shows "TryFindKernelByHash (registry_of hashf infos)
           (hashf (kernel_def (entry_at (registry_of hashf infos) i))) = Some i \<and>
         findKernelByHash (registry_of hashf infos)
           (hashf (kernel_def (entry_at (registry_of hashf infos) i)))
           = TryFindKernel (registry_of hashf infos) node exec_provider res"
proof -
  have "i \<in> set (survivors (registry_of hashf infos) node exec_provider res)"
    using assms by (simp add: TryFindKernel_Inr_iff)
  then have "i < length (kernel_creator_fn_map (registry_of hashf infos))"
    unfolding set_survivors by simp
  then have "kernel_def_hash_lookup (registry_of hashf infos)
               (hashf (kernel_def (entry_at (registry_of hashf infos) i))) = Some i"
    using index_consistent_registry_of [of hashf infos] unfolding index_consistent_def by blast
  then show ?thesis
    using assms by (simp add: TryFindKernelByHash_def findKernelByHash_def)
qed

theorem hash_path_equivalence_witness:
  "TryFindKernel example_registry (clip_node ''int32'') ''CPU'' clip_resolver = Inr 2 \<and>
   TryFindKernelByHash example_registry (example_hash (kernel_def (entry_at example_registry 2))) = Some 2 \<and>
   findKernelByHash example_registry (example_hash (kernel_def (entry_at example_registry 2)))
     = TryFindKernel example_registry (clip_node ''int32'') ''CPU'' clip_resolver"
proof -
  have h: "TryFindKernel (registry_of example_hash [relu_cpu, clip_cpu_float32, clip_cpu_int32, clip_cpu_floats])
             (clip_node ''int32'') ''CPU'' clip_resolver = Inr 2"
    by code_simp
  show ?thesis
    using h hash_path_equivalence [OF h] by (simp add: example_registry_def)
qed

end
